theory Spec2Isabelle
  imports Main "HOL-Library.Word"
begin

section \<open>The tdlchar character device (tdlchar.c)\<close>

subsection \<open>Data\<close>

text \<open>
  A C \<open>char\<close> is one byte. The driver's globals are \<open>message[256]\<close>, the
  \<open>short size_of_message\<close>, the \<open>int numberOpens\<close> and the mutex. A task is
  named by a number; the mutex records the task holding it, if any.
\<close>

type_synonym byte = "8 word"
type_synonym task = nat

definition MESSAGE_SIZE :: nat where
  "MESSAGE_SIZE = 256"

record device =
  message :: "byte list"
  size_of_message :: "16 word"
  numberOpens :: "32 word"
  tdlchar_mutex :: "task option"

text \<open>
  The globals as the C initialisers leave them: \<open>message\<close> zeroed, both counters 0
  (static storage), the mutex free after \<open>mutex_init\<close>.
\<close>

definition initial_device :: device where
  "initial_device =
     \<lparr> message = replicate MESSAGE_SIZE 0, size_of_message = 0,
       numberOpens = 0, tdlchar_mutex = None \<rparr>"

text \<open>
  A store to or a load from \<open>message\<close> outside its 256 bytes has no defined
  behaviour in C; the model stops there with the offending index.
\<close>

datatype fault = OutOfBounds nat

text \<open>
  The two errno values the driver returns (negated). The headers are not among the
  sources: \<open>EFAULT\<close> is 14 by the comment in \<open>dev_read\<close>, \<open>EBUSY\<close> is 16 in Linux.
\<close>

definition EFAULT :: int where
  "EFAULT = 14"

definition EBUSY :: int where
  "EBUSY = 16"

subsection \<open>Kernel services\<close>

text \<open>
  Modelled from the spec: \<open>mutex_trylock\<close> and \<open>mutex_unlock\<close> are kernel
  services, not code of the driver. The spec's session gate is an atomic, non-blocking
  try-lock that admits a caller only when no session is open (the source's comment:
  "returns 0 on fail"), and a release that is unconditional.
\<close>

definition mutex_trylock :: "task \<Rightarrow> task option \<Rightarrow> bool \<times> task option" where
  "mutex_trylock current m = (case m of None \<Rightarrow> (True, Some current) | Some owner \<Rightarrow> (False, m))"

definition mutex_unlock :: "task option \<Rightarrow> task option" where
  "mutex_unlock m = None"

text \<open>
  Modelled from the spec: \<open>copy_to_user (to, from, n)\<close> is a kernel service. The
  destination is the run of bytes of caller memory that is accessible at the pointer
  \<open>to\<close>. When \<open>n\<close> bytes fit there they are all copied and the result is 0
  (the source's comment: "returns 0 on success"); otherwise the copy fails and the result
  is the number of bytes that could not be copied.
\<close>

definition copy_to_user :: "byte list \<Rightarrow> byte list \<Rightarrow> nat \<Rightarrow> nat \<times> byte list" where
  "copy_to_user to from n =
     (if n \<le> length to then (0, take n from @ drop n to)
      else (n - length to, take (length to) from))"

text \<open>
  \<open>strlen\<close> counts the bytes before the first zero byte; on an array holding no
  zero byte it reads past the end.
\<close>

definition strlen :: "byte list \<Rightarrow> fault + nat" where
  "strlen s = (if 0 \<in> set s then Inr (length (takeWhile (\<lambda>c. c \<noteq> 0) s))
               else Inl (OutOfBounds (length s)))"

text \<open>The conversion of the \<open>short\<close> to the \<open>size_t\<close> count of a copy (64 bits).\<close>

definition size_t_of_short :: "16 word \<Rightarrow> nat" where
  "size_t_of_short n = nat (sint n mod 2 ^ 64)"

subsection \<open>The driver's functions\<close>

text \<open>
  \<open>toupper\<close>: the comparisons and the subtraction are done on the \<open>char\<close>
  promoted to \<open>int\<close>, the result is converted back to \<open>char\<close>. The byte is read
  unsigned here; \<open>toupper_signed_char\<close> below shows that a signed \<open>char\<close>
  gives the same function.
\<close>

definition toupper :: "byte \<Rightarrow> byte" where
  "toupper inChar =
     (let outChar = inChar in
      if uint inChar \<ge> 97 \<and> uint inChar \<le> 122
      then word_of_int (uint inChar - (97 - 65))
      else outChar)"

definition dev_open :: "task \<Rightarrow> device \<Rightarrow> device \<times> int" where
  "dev_open current d =
     (case mutex_trylock current (tdlchar_mutex d) of
        (False, m) \<Rightarrow> (d\<lparr>tdlchar_mutex := m\<rparr>, - EBUSY)
      | (True, m) \<Rightarrow> (d\<lparr>tdlchar_mutex := m, numberOpens := numberOpens d + 1\<rparr>, 0))"

text \<open>
  \<open>dev_read\<close>: the count given to \<open>copy_to_user\<close> is \<open>size_of_message\<close>; the
  parameter \<open>len\<close> is not used by the body. The result is the device, the caller's
  memory and the returned value.
\<close>

definition dev_read :: "device \<Rightarrow> byte list \<Rightarrow> nat \<Rightarrow> fault + (device \<times> byte list \<times> int)" where
  "dev_read d buffer len =
     (let n = size_t_of_short (size_of_message d) in
      if n > MESSAGE_SIZE then Inl (OutOfBounds MESSAGE_SIZE)
      else
        (case copy_to_user buffer (message d) n of
           (error_count, buffer') \<Rightarrow>
             if error_count = 0
             then Inr (d\<lparr>size_of_message := 0\<rparr>, buffer', 0)
             else Inr (d, buffer', - EFAULT)))"

text \<open>One store \<open>message[i] = c\<close>.\<close>

definition store_message :: "byte list \<Rightarrow> nat \<Rightarrow> byte \<Rightarrow> fault + byte list" where
  "store_message m i c = (if i < MESSAGE_SIZE then Inr (m[i := c]) else Inl (OutOfBounds i))"

text \<open>
  The \<open>for\<close> loop of \<open>dev_write\<close>, from index \<open>i\<close> over the bytes of the
  caller's buffer that are still to be stored. The loop stops at the first store outside
  the array, so the \<open>int\<close> counter never leaves 0..256.
\<close>

fun write_loop :: "byte list \<Rightarrow> nat \<Rightarrow> byte list \<Rightarrow> fault + byte list" where
  "write_loop m i [] = Inr m"
| "write_loop m i (c # cs) =
     (case store_message m i (toupper c) of
        Inl f \<Rightarrow> Inl f
      | Inr m' \<Rightarrow> write_loop m' (Suc i) cs)"

text \<open>
  \<open>dev_write\<close>: the caller's buffer and its length \<open>len\<close> are one byte list. The
  loop, the terminator \<open>message[len] = 0\<close>, then \<open>size_of_message = strlen(message)\<close>
  (a \<open>size_t\<close> narrowed to \<open>short\<close>), and \<open>len\<close> is returned.
\<close>

definition dev_write :: "device \<Rightarrow> byte list \<Rightarrow> fault + (device \<times> int)" where
  "dev_write d buffer =
     (let len = length buffer in
      case write_loop (message d) 0 buffer of
        Inl f \<Rightarrow> Inl f
      | Inr m \<Rightarrow>
          (case store_message m len 0 of
             Inl f \<Rightarrow> Inl f
           | Inr m' \<Rightarrow>
               (case strlen m' of
                  Inl f \<Rightarrow> Inl f
                | Inr n \<Rightarrow> Inr (d\<lparr>message := m', size_of_message := of_nat n\<rparr>, int len))))"

definition dev_release :: "device \<Rightarrow> device \<times> int" where
  "dev_release d = (d\<lparr>tdlchar_mutex := mutex_unlock (tdlchar_mutex d)\<rparr>, 0)"

text \<open>An ASCII character as the byte the caller's buffer holds.\<close>

definition byte_of_char :: "char \<Rightarrow> byte" where
  "byte_of_char c = of_nat (of_char c)"

subsection \<open>Sessions\<close>

text \<open>
  The four file operations as the kernel routes them to the driver, and what each call hands
  back: the returned value and, for a read, the caller's memory after the copy. A run
  applies a sequence of calls to the device and stops at the first fault.
\<close>

datatype operation = Open task | Read "byte list" nat | Write "byte list" | Release

datatype reply = Status int | Data "byte list" int

fun step :: "operation \<Rightarrow> device \<Rightarrow> fault + (device \<times> reply)" where
  "step (Open t) d = (case dev_open t d of (d', r) \<Rightarrow> Inr (d', Status r))"
| "step (Read buffer len) d =
     (case dev_read d buffer len of
        Inl f \<Rightarrow> Inl f
      | Inr (d', buffer', r) \<Rightarrow> Inr (d', Data buffer' r))"
| "step (Write buffer) d =
     (case dev_write d buffer of
        Inl f \<Rightarrow> Inl f
      | Inr (d', r) \<Rightarrow> Inr (d', Status r))"
| "step Release d = (case dev_release d of (d', r) \<Rightarrow> Inr (d', Status r))"

fun run :: "operation list \<Rightarrow> device \<Rightarrow> fault + (device \<times> reply list)" where
  "run [] d = Inr (d, [])"
| "run (a # as) d =
     (case step a d of
        Inl f \<Rightarrow> Inl f
      | Inr (d', r) \<Rightarrow>
          (case run as d' of
             Inl f \<Rightarrow> Inl f
           | Inr (d'', rs) \<Rightarrow> Inr (d'', r # rs)))"

text \<open>The replies of a run alone.\<close>

definition replies :: "operation list \<Rightarrow> device \<Rightarrow> fault + reply list" where
  "replies as d = map_sum id snd (run as d)"

text \<open>
  The stored message is \<open>message[0..size_of_message)\<close>, the bytes a read hands to
  \<open>copy_to_user\<close>; the ASCII lowercase letters are the bytes \<open>'a'\<close> to \<open>'z'\<close>.
\<close>

definition stored_message :: "device \<Rightarrow> byte list" where
  "stored_message d = take (size_t_of_short (size_of_message d)) (message d)"

definition is_lower :: "byte \<Rightarrow> bool" where
  "is_lower c = (97 \<le> uint c \<and> uint c \<le> 122)"

text \<open>A write that stays inside the array: fewer than 256 bytes.\<close>

fun in_bounds :: "operation \<Rightarrow> bool" where
  "in_bounds (Write buffer) = (length buffer < MESSAGE_SIZE)"
| "in_bounds _ = True"

text \<open>
  The intact device: the array has its 256 bytes, the stored message ends inside it, and no
  byte of the stored message is a lowercase letter.
\<close>

definition device_ok :: "device \<Rightarrow> bool" where
  "device_ok d \<longleftrightarrow>
     length (message d) = MESSAGE_SIZE \<and>
     size_t_of_short (size_of_message d) < MESSAGE_SIZE \<and>
     (\<forall>c\<in>set (stored_message d). \<not> is_lower c)"

section \<open>Properties\<close>

subsection \<open>Bytes and counts\<close>

lemma mod_256_shift:
  fixes x :: int
  assumes "0 \<le> x" "x < 256"
  shows "(x + 128) mod 256 - 128 = (if x < 128 then x else x - 256)"
proof (cases "x < 128")
  case True
  then show ?thesis using assms by simp
next
  case False
  have "(x + 128) mod 256 = x - 128"
    by (rule int_mod_pos_eq [where q = 1]) (use False assms in simp_all)
  then show ?thesis using False by simp
qed

lemma sint_byte: "sint (c :: byte) = (if uint c < 128 then uint c else uint c - 256)"
proof -
  have s: "sint (word_of_int (uint c) :: byte) = (uint c + 2 ^ (8 - 1)) mod 2 ^ 8 - 2 ^ (8 - 1)"
    using int_word_sint [where 'a = 8, of "uint c"] by simp
  have b: "0 \<le> uint c" "uint c < 256"
    using uint_lt2p [of c] by simp_all
  show ?thesis
    using s mod_256_shift [OF b] by simp
qed

text \<open>
  Whether the platform's \<open>char\<close> is signed or unsigned, \<open>toupper\<close> is the same
  function: the letters lie below 128.
\<close>

lemma toupper_signed_char:
  "toupper c = (if sint c \<ge> 97 \<and> sint c \<le> 122 then word_of_int (sint c - (97 - 65)) else c)"
proof -
  have "0 \<le> uint c" "uint c < 256"
    using uint_lt2p [of c] by simp_all
  then show ?thesis
    unfolding toupper_def Let_def sint_byte by simp
qed

lemma size_t_of_short_of_nat: "n < 2 ^ 15 \<Longrightarrow> size_t_of_short (of_nat n) = n"
proof -
  assume a: "n < 2 ^ 15"
  have "sint (word_of_nat n :: 16 word) = signed_take_bit (16 - Suc 0) (int n)"
    using signed_of_nat [where 'b = 16 and 'a = int, of n] by simp
  also have "\<dots> = int n"
    using a by (simp add: signed_take_bit_int_eq_self)
  finally show ?thesis
    using a by (simp add: size_t_of_short_def)
qed

lemma uint_toupper_letter:
  "97 \<le> uint c \<Longrightarrow> uint c \<le> 122 \<Longrightarrow> uint (toupper c) = uint c - 32"
  by (simp add: toupper_def uint_sub_if')

lemma toupper_other:
  "\<not> (97 \<le> uint c \<and> uint c \<le> 122) \<Longrightarrow> toupper c = c"
  by (auto simp: toupper_def)

lemma toupper_eq_0: "toupper c = 0 \<longleftrightarrow> c = 0"
proof
  assume z: "toupper c = 0"
  show "c = 0"
  proof (cases "97 \<le> uint c \<and> uint c \<le> 122")
    case True
    then have "uint (toupper c) = uint c - 32"
      by (simp add: uint_toupper_letter)
    then show ?thesis using z True by simp
  next
    case False
    then show ?thesis using z by (simp add: toupper_other)
  qed
qed (simp add: toupper_def)

subsection \<open>The write loop\<close>

lemma write_loop_in_bounds:
  "length m = MESSAGE_SIZE \<Longrightarrow> i + length cs \<le> MESSAGE_SIZE \<Longrightarrow>
   write_loop m i cs = Inr (take i m @ map toupper cs @ drop (i + length cs) m)"
proof (induction cs arbitrary: m i)
  case Nil
  then show ?case by simp
next
  case (Cons c cs)
  from Cons.prems have i: "i < MESSAGE_SIZE" "i < length m" by simp_all
  have "write_loop (m[i := toupper c]) (Suc i) cs =
        Inr (take (Suc i) (m[i := toupper c]) @ map toupper cs @
             drop (Suc i + length cs) (m[i := toupper c]))"
    using Cons.prems by (intro Cons.IH) simp_all
  moreover have "take (Suc i) (m[i := toupper c]) = take i m @ [toupper c]"
    using i by (simp add: take_Suc_conv_app_nth)
  ultimately show ?case
    using i by (simp add: store_message_def)
qed

lemma write_loop_overrun:
  "MESSAGE_SIZE < i + length cs \<Longrightarrow> i \<le> MESSAGE_SIZE \<Longrightarrow>
   write_loop m i cs = Inl (OutOfBounds MESSAGE_SIZE)"
proof (induction cs arbitrary: m i)
  case Nil
  then show ?case by simp
next
  case (Cons c cs)
  show ?case
  proof (cases "i < MESSAGE_SIZE")
    case True
    then show ?thesis using Cons.prems Cons.IH [of "Suc i" "m[i := toupper c]"]
      by (simp add: store_message_def)
  next
    case False
    then show ?thesis using Cons.prems by (simp add: store_message_def)
  qed
qed

lemma takeWhile_toupper:
  "takeWhile (\<lambda>c. c \<noteq> 0) (map toupper cs) = map toupper (takeWhile (\<lambda>c. c \<noteq> 0) cs)"
  by (induction cs) (simp_all add: toupper_eq_0)

lemma strlen_terminated:
  "strlen (map toupper cs @ 0 # rest) = Inr (length (takeWhile (\<lambda>c. c \<noteq> 0) cs))"
proof -
  have "takeWhile (\<lambda>c. c \<noteq> 0) (map toupper cs @ 0 # rest) =
        takeWhile (\<lambda>c. c \<noteq> 0) (map toupper cs)"
    by (induction cs) simp_all
  then show ?thesis
    by (simp add: strlen_def takeWhile_toupper)
qed

text \<open>What a write of fewer than 256 bytes does to a device whose array has its 256 bytes.\<close>

lemma dev_write_in_bounds:
  assumes "length (message d) = MESSAGE_SIZE" and "length buffer < MESSAGE_SIZE"
  shows "dev_write d buffer =
           Inr (d\<lparr>message := map toupper buffer @ 0 # drop (Suc (length buffer)) (message d),
                   size_of_message := of_nat (length (takeWhile (\<lambda>c. c \<noteq> 0) buffer))\<rparr>,
                int (length buffer))"
proof -
  let ?m = "message d"
  have loop: "write_loop ?m 0 buffer = Inr (map toupper buffer @ drop (length buffer) ?m)"
    using assms write_loop_in_bounds [of ?m 0 buffer] by simp
  have split: "drop (length buffer) ?m = ?m ! length buffer # drop (Suc (length buffer)) ?m"
    using assms by (simp add: Cons_nth_drop_Suc)
  have "(map toupper buffer @ drop (length buffer) ?m)[length buffer := 0] =
        map toupper buffer @ (drop (length buffer) ?m)[0 := 0]"
    by (simp add: list_update_append)
  also have "\<dots> = map toupper buffer @ 0 # drop (Suc (length buffer)) ?m"
    by (subst split) simp
  finally have upd: "(map toupper buffer @ drop (length buffer) ?m)[length buffer := 0] =
        map toupper buffer @ 0 # drop (Suc (length buffer)) ?m" .
  show ?thesis
    using assms by (simp add: dev_write_def Let_def loop store_message_def upd strlen_terminated)
qed

subsection \<open>The session gate\<close>

text \<open>
  C1. While a task holds the mutex, \<open>dev_open\<close> by any task returns \<open>-EBUSY\<close> and the
  device is exactly as before: \<open>message\<close>, \<open>size_of_message\<close>, \<open>numberOpens\<close> and
  the holder of the mutex.
\<close>

theorem dev_open_busy:
  assumes "tdlchar_mutex d = Some owner"
  shows "dev_open current d = (d, - EBUSY)"
  using assms by (simp add: dev_open_def mutex_trylock_def)

theorem dev_open_busy_witness:
  "tdlchar_mutex (fst (dev_open 1 initial_device)) = Some 1 \<and>
   dev_open 2 (fst (dev_open 1 initial_device)) = (fst (dev_open 1 initial_device), - 16)"
  using dev_open_busy [of "fst (dev_open 1 initial_device)" 1 2]
  by (simp add: dev_open_def mutex_trylock_def initial_device_def EBUSY_def)

text \<open>
  C9. \<open>dev_release\<close> returns 0 and a \<open>dev_open\<close> by another task right after it
  returns 0 and holds the mutex; neither function changes \<open>message\<close> or
  \<open>size_of_message\<close>, whichever branch it takes, so an unread message is still stored
  after the close and the fresh open.
\<close>

theorem release_then_open_keeps_message:
  "snd (dev_release d) = 0 \<and>
   snd (dev_open other (fst (dev_release d))) = 0 \<and>
   tdlchar_mutex (fst (dev_open other (fst (dev_release d)))) = Some other \<and>
   message (fst (dev_open other (fst (dev_release d)))) = message d \<and>
   size_of_message (fst (dev_open other (fst (dev_release d)))) = size_of_message d \<and>
   message (fst (dev_release d)) = message d \<and>
   size_of_message (fst (dev_release d)) = size_of_message d \<and>
   message (fst (dev_open t d)) = message d \<and>
   size_of_message (fst (dev_open t d)) = size_of_message d"
  by (simp add: dev_release_def dev_open_def mutex_trylock_def mutex_unlock_def
      split: option.split)

subsection \<open>Reading\<close>

text \<open>
  C5. When the copy to the caller fails (\<open>copy_to_user\<close> reports bytes left uncopied),
  \<open>dev_read\<close> returns \<open>-EFAULT\<close> and the device is unchanged: \<open>size_of_message\<close>
  keeps its value and the message stays stored. The count is one that stays inside the
  array.
\<close>

theorem dev_read_copy_fault:
  assumes "size_t_of_short (size_of_message d) \<le> MESSAGE_SIZE"
    and "copy_to_user buffer (message d) (size_t_of_short (size_of_message d)) = (error_count, buffer')"
    and "error_count \<noteq> 0"
  shows "dev_read d buffer len = Inr (d, buffer', - EFAULT)"
  using assms by (simp add: dev_read_def Let_def)

theorem dev_read_copy_fault_witness:
  "dev_write initial_device (map byte_of_char ''abc'') =
     Inr (\<lparr>message = map byte_of_char ''ABC'' @ replicate 253 0, size_of_message = 3,
           numberOpens = 0, tdlchar_mutex = None\<rparr>, 3) \<and>
   copy_to_user (map byte_of_char ''..'') (map byte_of_char ''ABC'' @ replicate 253 0) 3 =
     (1, map byte_of_char ''AB'') \<and>
   dev_read \<lparr>message = map byte_of_char ''ABC'' @ replicate 253 0, size_of_message = 3,
             numberOpens = 0, tdlchar_mutex = None\<rparr> (map byte_of_char ''..'') 256 =
     Inr (\<lparr>message = map byte_of_char ''ABC'' @ replicate 253 0, size_of_message = 3,
           numberOpens = 0, tdlchar_mutex = None\<rparr>, map byte_of_char ''AB'', - 14)"
proof -
  let ?d = "\<lparr>message = map byte_of_char ''ABC'' @ replicate 253 0, size_of_message = 3,
           numberOpens = 0, tdlchar_mutex = None\<rparr>"
  have w: "dev_write initial_device (map byte_of_char ''abc'') = Inr (?d, 3)"
    by code_simp
  have n: "size_t_of_short (size_of_message ?d) = 3"
    by (simp add: size_t_of_short_def)
  have c: "copy_to_user (map byte_of_char ''..'') (message ?d)
             (size_t_of_short (size_of_message ?d)) = (1, map byte_of_char ''AB'')"
    unfolding n by (simp add: copy_to_user_def)
  have b: "size_t_of_short (size_of_message ?d) \<le> MESSAGE_SIZE"
    unfolding n by (simp add: MESSAGE_SIZE_def)
  have e: "(1::nat) \<noteq> 0"
    by simp
  from dev_read_copy_fault [OF b c e, of 256] w c show ?thesis
    unfolding n by (simp add: EFAULT_def)
qed

subsection \<open>The transform and the write\<close>

text \<open>
  C2. \<open>toupper\<close> takes each of the bytes \<open>'a'\<close> (97) to \<open>'z'\<close> (122) to the byte
  32 below it, which is the uppercase letter, and returns every other byte as it is; a
  write that fits stores \<open>toupper\<close> of each byte of the payload, in the payload's order,
  at the start of \<open>message\<close>.
\<close>

theorem toupper_per_byte:
  "(97 \<le> unat b \<and> unat b \<le> 122 \<longrightarrow> unat (toupper b) = unat b - 32) \<and>
   (\<not> (97 \<le> unat b \<and> unat b \<le> 122) \<longrightarrow> toupper b = b) \<and>
   map toupper (map byte_of_char ''abcdefghijklmnopqrstuvwxyz'') =
     map byte_of_char ''ABCDEFGHIJKLMNOPQRSTUVWXYZ'' \<and>
   (length (message d) = MESSAGE_SIZE \<and> length buffer < MESSAGE_SIZE \<longrightarrow>
      (\<exists>d' r. dev_write d buffer = Inr (d', r) \<and>
         take (length buffer) (message d') = map toupper buffer))"
proof -
  have ub: "uint c = int (unat c)" for c :: byte
    by (rule uint_nat)
  have letter: "unat (toupper b) = unat b - 32" if "97 \<le> unat b \<and> unat b \<le> 122"
  proof -
    from that ub [of b] have u: "97 \<le> uint b" "uint b \<le> 122"
      by linarith+
    then have "uint (toupper b) = uint b - 32"
      by (rule uint_toupper_letter)
    with ub [of b] ub [of "toupper b"] show ?thesis
      by linarith
  qed
  have other: "toupper b = b" if "\<not> (97 \<le> unat b \<and> unat b \<le> 122)"
  proof (rule toupper_other)
    show "\<not> (97 \<le> uint b \<and> uint b \<le> 122)"
      using that ub [of b] by linarith
  qed
  have alphabet: "map toupper (map byte_of_char ''abcdefghijklmnopqrstuvwxyz'') =
     map byte_of_char ''ABCDEFGHIJKLMNOPQRSTUVWXYZ''"
    by code_simp
  have stored: "\<exists>d' r. dev_write d buffer = Inr (d', r) \<and>
         take (length buffer) (message d') = map toupper buffer"
    if "length (message d) = MESSAGE_SIZE \<and> length buffer < MESSAGE_SIZE"
    using that by (simp add: dev_write_in_bounds)
  show ?thesis
  proof (intro conjI impI)
    show "map toupper (map byte_of_char ''abcdefghijklmnopqrstuvwxyz'') =
      map byte_of_char ''ABCDEFGHIJKLMNOPQRSTUVWXYZ''"
      by (rule alphabet)
  qed (erule letter other stored)+
qed

theorem toupper_per_byte_witness:
  "unat (toupper 0x61) = 0x41 \<and> toupper 0x7B = 0x7B \<and>
   (\<exists>d' r. dev_write initial_device [0x68, 0x69, 0x21] = Inr (d', r) \<and>
      take 3 (message d') = [0x48, 0x49, 0x21])"
proof -
  note t = toupper_per_byte [of "0x61" initial_device "[0x68, 0x69, 0x21]"]
  note u = toupper_per_byte [of "0x7B" initial_device "[]"]
  have "unat (toupper 0x61) = 0x41"
    using t [THEN conjunct1] by simp
  moreover have "toupper 0x7B = 0x7B"
    using u [THEN conjunct2, THEN conjunct1] by simp
  moreover have "\<exists>d' r. dev_write initial_device [0x68, 0x69, 0x21] = Inr (d', r) \<and>
      take 3 (message d') = [0x48, 0x49, 0x21]"
    using t [THEN conjunct2, THEN conjunct2, THEN conjunct2]
    by (simp add: initial_device_def MESSAGE_SIZE_def toupper_def numeral_3_eq_3)
  ultimately show ?thesis
    by simp
qed

text \<open>
  C7, as the code has it. A write of fewer than 256 bytes returns the payload's length,
  stores \<open>toupper\<close> of each payload byte in \<open>message[0..len)\<close> and a zero byte at
  \<open>message[len]\<close>, and leaves the bytes behind it, \<open>numberOpens\<close> and the mutex alone.
  \<open>size_of_message\<close> becomes \<open>strlen(message)\<close>: the number of payload bytes before the
  payload's first zero byte, which is the payload's length when it holds no zero byte.
\<close>

theorem dev_write_effect:
  assumes "length (message d) = MESSAGE_SIZE" and "length buffer < MESSAGE_SIZE"
  shows "\<exists>d'. dev_write d buffer = Inr (d', int (length buffer)) \<and>
     take (length buffer) (message d') = map toupper buffer \<and>
     message d' ! length buffer = 0 \<and>
     drop (Suc (length buffer)) (message d') = drop (Suc (length buffer)) (message d) \<and>
     length (message d') = MESSAGE_SIZE \<and>
     size_t_of_short (size_of_message d') = length (takeWhile (\<lambda>c. c \<noteq> 0) buffer) \<and>
     (0 \<notin> set buffer \<longrightarrow> size_t_of_short (size_of_message d') = length buffer) \<and>
     numberOpens d' = numberOpens d \<and> tdlchar_mutex d' = tdlchar_mutex d"
proof -
  let ?k = "length (takeWhile (\<lambda>c. c \<noteq> 0) buffer)"
  have "?k \<le> length buffer"
    by (rule length_takeWhile_le)
  then have "?k < 2 ^ 15"
    using assms(2) by (simp add: MESSAGE_SIZE_def)
  then have k: "size_t_of_short (of_nat ?k) = ?k"
    by (rule size_t_of_short_of_nat)
  have full: "?k = length buffer" if "0 \<notin> set buffer"
  proof -
    from that have "\<forall>c\<in>set buffer. c \<noteq> 0"
      by auto
    then have "takeWhile (\<lambda>c. c \<noteq> 0) buffer = buffer"
      by (simp only: takeWhile_eq_all_conv)
    then show ?thesis by (simp only:)
  qed
  have "length buffer < 2 ^ 15"
    using assms(2) by (simp add: MESSAGE_SIZE_def)
  then have n: "size_t_of_short (of_nat (length buffer)) = length buffer"
    by (rule size_t_of_short_of_nat)
  show ?thesis
    using assms k n full
    by (simp add: dev_write_in_bounds nth_append)
qed

theorem dev_write_effect_witness:
  "length (message initial_device) = MESSAGE_SIZE \<and>
   length [0x61, 0x62, 0x63 :: byte] < MESSAGE_SIZE \<and>
   0 \<notin> set [0x61, 0x62, 0x63 :: byte] \<and>
   (\<exists>d'. dev_write initial_device [0x61, 0x62, 0x63] = Inr (d', 3) \<and>
      take 3 (message d') = [0x41, 0x42, 0x43] \<and> message d' ! 3 = 0 \<and>
      size_t_of_short (size_of_message d') = 3)"
proof -
  have a: "length (message initial_device) = MESSAGE_SIZE"
    by (simp add: initial_device_def)
  have b: "length [0x61, 0x62, 0x63 :: byte] < MESSAGE_SIZE"
    by (simp add: MESSAGE_SIZE_def)
  show ?thesis
    using a b dev_write_effect [OF a b] by (auto simp: toupper_def numeral_3_eq_3)
qed

text \<open>
  The specification's wording of C7 (\<open>size_of_message\<close> equal to the payload's length) fails
  on a payload with a zero byte in it: of the three bytes \<open>'a', 0, 'b'\<close> the write
  returns 3 and stores all three, and \<open>size_of_message\<close> is 1.
\<close>

theorem dev_write_length_counterexample:
  "dev_write initial_device [0x61, 0, 0x62] =
     Inr (initial_device\<lparr>message := [0x41, 0, 0x42, 0] @ replicate 252 0,
                          size_of_message := 1\<rparr>, 3) \<and>
   size_t_of_short 1 \<noteq> length [0x61, 0, 0x62 :: byte]"
  by code_simp

subsection \<open>Reading what was written\<close>

lemma dev_read_drained:
  "size_of_message d = 0 \<Longrightarrow>
   dev_read d buffer len = Inr (d\<lparr>size_of_message := 0\<rparr>, buffer, 0)"
  by (simp add: dev_read_def size_t_of_short_def copy_to_user_def)

text \<open>
  A payload without a zero byte, written and then read into caller memory that holds it:
  the read copies exactly the transformed payload, returns 0 and clears
  \<open>size_of_message\<close>.
\<close>

lemma read_after_write:
  assumes "length (message d) = MESSAGE_SIZE" and "length payload < MESSAGE_SIZE"
    and "0 \<notin> set payload" and "length payload \<le> length buffer"
  shows "\<exists>d'. dev_write d payload = Inr (d', int (length payload)) \<and>
           size_t_of_short (size_of_message d') = length payload \<and>
           dev_read d' buffer len =
             Inr (d'\<lparr>size_of_message := 0\<rparr>,
                  map toupper payload @ drop (length payload) buffer, 0)"
proof -
  from assms(3) have "\<forall>c\<in>set payload. c \<noteq> 0"
    by auto
  then have "takeWhile (\<lambda>c. c \<noteq> 0) payload = payload"
    by (simp only: takeWhile_eq_all_conv)
  then have k: "length (takeWhile (\<lambda>c. c \<noteq> 0) payload) = length payload"
    by (simp only:)
  have "length payload < 2 ^ 15"
    using assms(2) by (simp add: MESSAGE_SIZE_def)
  then have n: "size_t_of_short (of_nat (length payload)) = length payload"
    by (rule size_t_of_short_of_nat)
  show ?thesis
    using assms(1,2,4) n
    by (simp add: dev_write_in_bounds k dev_read_def copy_to_user_def Let_def)
qed

text \<open>
  C3, as the code has it. A payload of 255 bytes (one less than the array) that holds no
  zero byte is accepted, the write returns 255, and a read into caller memory of at least
  255 bytes then delivers exactly the transformed payload. Nothing is stated here for a
  payload of 256 bytes.
\<close>

theorem write_255_round_trip:
  assumes "length (message d) = MESSAGE_SIZE" and "length payload = MESSAGE_SIZE - 1"
    and "0 \<notin> set payload" and "length payload \<le> length buffer"
  shows "\<exists>d' d''. dev_write d payload = Inr (d', 255) \<and>
           dev_read d' buffer len =
             Inr (d'', map toupper payload @ drop (length payload) buffer, 0)"
proof -
  from assms(2) have "length payload < MESSAGE_SIZE" and "int (length payload) = 255"
    by (simp_all add: MESSAGE_SIZE_def)
  with read_after_write [OF assms(1) _ assms(3,4), of len] show ?thesis
    by auto
qed

theorem write_255_round_trip_witness:
  "length (message initial_device) = MESSAGE_SIZE \<and>
   length (replicate 255 (0x61 :: byte)) = MESSAGE_SIZE - 1 \<and>
   0 \<notin> set (replicate 255 (0x61 :: byte)) \<and>
   length (replicate 255 (0x61 :: byte)) \<le> length (replicate 256 (0 :: byte)) \<and>
   (\<exists>d' d''. dev_write initial_device (replicate 255 0x61) = Inr (d', 255) \<and>
      dev_read d' (replicate 256 0) 256 = Inr (d'', replicate 255 0x41 @ [0], 0))"
proof -
  have a: "length (message initial_device) = MESSAGE_SIZE"
    by (simp add: initial_device_def)
  have b: "length (replicate 255 (0x61 :: byte)) = MESSAGE_SIZE - 1"
    by (simp add: MESSAGE_SIZE_def)
  have c: "0 \<notin> set (replicate 255 (0x61 :: byte))"
    by simp
  have e: "length (replicate 255 (0x61 :: byte)) \<le> length (replicate 256 (0 :: byte))"
    by simp
  have u: "toupper 0x61 = 0x41"
    by (simp add: toupper_def)
  have r: "drop 255 (replicate 256 (0 :: byte)) = [0]"
    by simp
  from write_255_round_trip [OF a b c e, of 256] a b c e show ?thesis
    by (simp add: u r)
qed

text \<open>
  The specification's wording of C3 fails twice. On 256 bytes \<open>dev_write\<close> has no error
  return: the loop overwrites all 256 bytes of \<open>message\<close> and the terminator is then
  stored at index 256, outside the array. And a 255-byte payload with a zero byte in it
  does not come back: after \<open>'a', 0, 'b', ...\<close> a read copies the single byte \<open>'A'\<close>.
\<close>

theorem write_capacity_counterexample:
  "write_loop (message initial_device) 0 (replicate 256 0x61) = Inr (replicate 256 0x41) \<and>
   dev_write initial_device (replicate 256 0x61) = Inl (OutOfBounds 256) \<and>
   replies [Write (0x61 # 0 # replicate 253 0x62), Read (replicate 255 0x2E) 255]
     initial_device =
     Inr [Status 255, Data (0x41 # replicate 254 0x2E) 0]"
  by code_simp

text \<open>
  C4, as the code has it. After \<open>"abc"\<close> is written, a read into caller memory of at
  least 3 bytes delivers \<open>"ABC"\<close> and clears \<open>size_of_message\<close>; its return value is
  the value of the assignment \<open>size_of_message = 0\<close>, that is 0 and not the count 3. A
  second read right after it copies nothing, leaves the caller's memory as it was and
  returns 0.
\<close>

theorem read_is_destructive:
  assumes "length (message d) = MESSAGE_SIZE" and "3 \<le> length buffer"
  shows "\<exists>d1 d2. dev_write d (map byte_of_char ''abc'') = Inr (d1, 3) \<and>
     dev_read d1 buffer len = Inr (d2, map byte_of_char ''ABC'' @ drop 3 buffer, 0) \<and>
     size_of_message d2 = 0 \<and>
     dev_read d2 buffer2 len2 = Inr (d2, buffer2, 0)"
proof -
  define abc where "abc = map byte_of_char ''abc''"
  define ABC where "ABC = map byte_of_char ''ABC''"
  have l: "length abc = 3" "length abc < MESSAGE_SIZE" "0 \<notin> set abc"
    by (simp_all add: abc_def MESSAGE_SIZE_def byte_of_char_def)
  have u: "map toupper abc = ABC"
    unfolding abc_def ABC_def by code_simp
  have le: "length abc \<le> length buffer"
    using assms(2) l(1) by simp
  from read_after_write [OF assms(1) l(2,3) le, of len]
  obtain d1 where w: "dev_write d abc = Inr (d1, int (length abc))"
    and r: "dev_read d1 buffer len =
      Inr (d1\<lparr>size_of_message := 0\<rparr>, map toupper abc @ drop (length abc) buffer, 0)"
    by blast
  have again: "dev_read (d1\<lparr>size_of_message := 0\<rparr>) buffer2 len2 =
      Inr (d1\<lparr>size_of_message := 0\<rparr>, buffer2, 0)"
    using dev_read_drained [of "d1\<lparr>size_of_message := 0\<rparr>" buffer2 len2] by simp
  have "\<exists>d1 d2. dev_write d abc = Inr (d1, 3) \<and>
     dev_read d1 buffer len = Inr (d2, ABC @ drop 3 buffer, 0) \<and>
     size_of_message d2 = 0 \<and>
     dev_read d2 buffer2 len2 = Inr (d2, buffer2, 0)"
    using w r again unfolding u l(1)
    by (intro exI [of _ d1] exI [of _ "d1\<lparr>size_of_message := 0\<rparr>"]) simp
  then show ?thesis
    unfolding abc_def ABC_def .
qed

theorem read_is_destructive_witness:
  "length (message (fst (dev_open 1 initial_device))) = MESSAGE_SIZE \<and>
   3 \<le> length (replicate 256 (0 :: byte)) \<and>
   (\<exists>d1 d2. dev_write (fst (dev_open 1 initial_device)) (map byte_of_char ''abc'') =
        Inr (d1, 3) \<and>
     dev_read d1 (replicate 256 0) 256 =
        Inr (d2, map byte_of_char ''ABC'' @ replicate 253 0, 0) \<and>
     size_of_message d2 = 0 \<and>
     dev_read d2 (replicate 256 0) 256 = Inr (d2, replicate 256 0, 0))"
proof -
  have a: "length (message (fst (dev_open 1 initial_device))) = MESSAGE_SIZE"
    by (simp add: dev_open_def mutex_trylock_def initial_device_def)
  have b: "3 \<le> length (replicate 256 (0 :: byte))"
    by simp
  have r: "drop 3 (replicate 256 (0 :: byte)) = replicate 253 0"
    by simp
  from read_is_destructive [OF a b, of 256 "replicate 256 0" 256] a b show ?thesis
    unfolding r by simp
qed

text \<open>
  The specification's wording of C4 (the first read returns the count 3) fails: in the
  session open, write \<open>"abc"\<close>, read, read, the first read delivers \<open>"ABC"\<close> and its
  return value is 0.
\<close>

theorem read_count_counterexample:
  "replies [Open 1, Write (map byte_of_char ''abc''),
            Read (replicate 8 0x2E) 8, Read (replicate 8 0x2E) 8] initial_device =
   Inr [Status 0, Status 3, Data (map byte_of_char ''ABC'' @ replicate 5 0x2E) 0,
        Data (replicate 8 0x2E) 0]"
  by code_simp

text \<open>
  C6 does not hold of \<open>dev_read\<close>: the body never looks at \<open>len\<close>. With \<open>"abc"\<close>
  stored, a read that announces room for 1 byte has 3 bytes copied to the caller's
  pointer, two of them past the announced end.
\<close>

theorem dev_read_ignores_len:
  "replies [Open 1, Write (map byte_of_char ''abc''), Read (map byte_of_char ''....'') 1]
     initial_device =
   Inr [Status 0, Status 3, Data (map byte_of_char ''ABC.'') 0]"
  by code_simp

text \<open>
  C8, as the code has it. Of two writes in a row (each of fewer than 256 bytes, the second
  without a zero byte) the second one decides what is stored: \<open>size_of_message\<close> is the
  second payload's length, and a read into caller memory that holds it delivers exactly
  the transformed second payload, whatever the first payload was and however long. The
  read returns 0 and not the length.
\<close>

theorem last_write_wins:
  assumes "length (message d) = MESSAGE_SIZE"
    and "length first < MESSAGE_SIZE" and "length second < MESSAGE_SIZE"
    and "0 \<notin> set second" and "length second \<le> length buffer"
  shows "\<exists>d1 d2 d3. dev_write d first = Inr (d1, int (length first)) \<and>
     dev_write d1 second = Inr (d2, int (length second)) \<and>
     size_t_of_short (size_of_message d2) = length second \<and>
     dev_read d2 buffer len =
       Inr (d3, map toupper second @ drop (length second) buffer, 0) \<and>
     size_of_message d3 = 0"
proof -
  have "length (message d) = MESSAGE_SIZE \<and> length first < MESSAGE_SIZE"
    using assms(1,2) by simp
  then obtain d1 where w1: "dev_write d first = Inr (d1, int (length first))"
    and l1: "length (message d1) = MESSAGE_SIZE"
    by (simp add: dev_write_in_bounds)
  from read_after_write [OF l1 assms(3,4,5), of len] w1 show ?thesis
    by auto
qed

theorem last_write_wins_witness:
  "length (message initial_device) = MESSAGE_SIZE \<and>
   length (map byte_of_char ''hello'') < MESSAGE_SIZE \<and>
   length (map byte_of_char ''ab'') < MESSAGE_SIZE \<and>
   0 \<notin> set (map byte_of_char ''ab'') \<and>
   length (map byte_of_char ''ab'') \<le> length (map byte_of_char ''........'') \<and>
   (\<exists>d1 d2 d3. dev_write initial_device (map byte_of_char ''hello'') = Inr (d1, 5) \<and>
     dev_write d1 (map byte_of_char ''ab'') = Inr (d2, 2) \<and>
     size_t_of_short (size_of_message d2) = 2 \<and>
     dev_read d2 (map byte_of_char ''........'') 8 =
       Inr (d3, map byte_of_char ''AB......'', 0) \<and>
     size_of_message d3 = 0)"
proof -
  have a: "length (message initial_device) = MESSAGE_SIZE"
    by (simp add: initial_device_def)
  have b: "length (map byte_of_char ''hello'') < MESSAGE_SIZE"
    by (simp add: MESSAGE_SIZE_def)
  have c: "length (map byte_of_char ''ab'') < MESSAGE_SIZE"
    by (simp add: MESSAGE_SIZE_def)
  have e: "0 \<notin> set (map byte_of_char ''ab'')"
    by (simp add: byte_of_char_def)
  have f: "length (map byte_of_char ''ab'') \<le> length (map byte_of_char ''........'')"
    by simp
  have g: "map toupper (map byte_of_char ''ab'') @
           drop (length (map byte_of_char ''ab'')) (map byte_of_char ''........'') =
           map byte_of_char ''AB......''"
    by code_simp
  from last_write_wins [OF a b c e f, of 8] a b c e f show ?thesis
    unfolding g by (simp add: numeral_2_eq_2)
qed

text \<open>
  The specification's wording of C8 (the read delivers the transformed second payload and
  its length) fails: after \<open>"ab"\<close> and \<open>"xyz"\<close> the read delivers \<open>"XYZ"\<close> and
  returns 0; and after \<open>"hello"\<close> and the three bytes \<open>'a', 0, 'b'\<close> it delivers the
  single byte \<open>'A'\<close>.
\<close>

theorem last_write_length_counterexample:
  "replies [Write (map byte_of_char ''ab''), Write (map byte_of_char ''xyz''),
            Read (map byte_of_char ''........'') 8] initial_device =
     Inr [Status 2, Status 3, Data (map byte_of_char ''XYZ.....'') 0] \<and>
   replies [Write (map byte_of_char ''hello''), Write [0x61, 0, 0x62],
            Read (map byte_of_char ''........'') 8] initial_device =
     Inr [Status 5, Status 3, Data (map byte_of_char ''A.......'') 0]"
  by code_simp

subsection \<open>The stored message holds no lowercase letter\<close>

lemma toupper_not_lower: "\<not> is_lower (toupper c)"
proof (cases "97 \<le> uint c \<and> uint c \<le> 122")
  case True
  then have "uint (toupper c) = uint c - 32"
    by (simp add: uint_toupper_letter)
  then show ?thesis
    using True by (simp add: is_lower_def)
next
  case False
  then show ?thesis
    by (simp add: toupper_other is_lower_def)
qed

lemma write_loop_completes:
  "i + length cs \<le> MESSAGE_SIZE \<Longrightarrow> \<exists>m'. write_loop m i cs = Inr m'"
  by (induction cs arbitrary: m i) (simp_all add: store_message_def)

lemma dev_write_overrun:
  assumes "MESSAGE_SIZE \<le> length buffer"
  shows "dev_write d buffer = Inl (OutOfBounds MESSAGE_SIZE)"
proof (cases "length buffer = MESSAGE_SIZE")
  case True
  then obtain m' where "write_loop (message d) 0 buffer = Inr m'"
    using write_loop_completes [of 0 buffer "message d"] by auto
  then show ?thesis
    using True by (simp add: dev_write_def store_message_def)
next
  case False
  then have "write_loop (message d) 0 buffer = Inl (OutOfBounds MESSAGE_SIZE)"
    using assms by (intro write_loop_overrun) simp_all
  then show ?thesis
    by (simp add: dev_write_def)
qed

text \<open>Every call keeps the device intact.\<close>

lemma initial_device_ok: "device_ok initial_device"
  by (simp add: device_ok_def initial_device_def stored_message_def size_t_of_short_def
      MESSAGE_SIZE_def)

lemma dev_write_ok:
  assumes "length (message d) = MESSAGE_SIZE" and "dev_write d buffer = Inr (d', r)"
  shows "device_ok d'"
proof (cases "length buffer < MESSAGE_SIZE")
  case True
  let ?k = "length (takeWhile (\<lambda>c. c \<noteq> 0) buffer)"
  have le: "?k \<le> length buffer"
    by (rule length_takeWhile_le)
  then have "?k < 2 ^ 15"
    using True by (simp add: MESSAGE_SIZE_def)
  then have k: "size_t_of_short (of_nat ?k) = ?k"
    by (rule size_t_of_short_of_nat)
  from assms True have d': "d' = d\<lparr>message := map toupper buffer @ 0 # drop (Suc (length buffer)) (message d),
                   size_of_message := of_nat ?k\<rparr>"
    by (simp add: dev_write_in_bounds)
  have "stored_message d' = take ?k (map toupper buffer)"
    using le by (simp add: d' stored_message_def k)
  then have "set (stored_message d') \<subseteq> toupper ` set buffer"
    using set_take_subset [of ?k "map toupper buffer"] by simp
  then have "\<forall>c\<in>set (stored_message d'). \<not> is_lower c"
    using toupper_not_lower by auto
  moreover have "length (message d') = MESSAGE_SIZE"
    using assms(1) True by (simp add: d')
  moreover have "size_t_of_short (size_of_message d') < MESSAGE_SIZE"
    using le True by (simp add: d' k)
  ultimately show ?thesis
    by (simp add: device_ok_def)
next
  case False
  then show ?thesis
    using assms(2) dev_write_overrun [of buffer d] by simp
qed

lemma dev_read_ok:
  assumes "device_ok d" and "dev_read d buffer len = Inr (d', buffer', r)"
  shows "device_ok d'"
proof -
  have "d' = d \<or> d' = d\<lparr>size_of_message := 0\<rparr>"
    using assms(2) by (auto simp: dev_read_def Let_def split: if_splits prod.splits)
  then show ?thesis
  proof
    assume "d' = d"
    then show ?thesis using assms(1) by simp
  next
    assume "d' = d\<lparr>size_of_message := 0\<rparr>"
    then show ?thesis
      using assms(1)
      by (simp add: device_ok_def stored_message_def size_t_of_short_def MESSAGE_SIZE_def)
  qed
qed

lemma dev_open_ok: "device_ok d \<Longrightarrow> device_ok (fst (dev_open t d))"
  by (simp add: device_ok_def stored_message_def dev_open_def mutex_trylock_def
      split: option.split)

lemma dev_release_ok: "device_ok d \<Longrightarrow> device_ok (fst (dev_release d))"
  by (simp add: device_ok_def stored_message_def dev_release_def)

lemma step_ok:
  assumes "device_ok d" and "step a d = Inr (d', r)"
  shows "device_ok d'"
proof (cases a)
  case (Open t)
  then show ?thesis
    using assms dev_open_ok [of d t] by (auto split: prod.splits)
next
  case (Read buffer len)
  then show ?thesis
    using assms dev_read_ok [of d buffer len] by (auto split: sum.splits)
next
  case (Write buffer)
  then show ?thesis
    using assms dev_write_ok [of d buffer] by (auto simp: device_ok_def split: sum.splits)
next
  case Release
  then show ?thesis
    using assms dev_release_ok [of d] by (auto split: prod.splits)
qed

lemma run_ok:
  "device_ok d \<Longrightarrow> run calls d = Inr (d', rs) \<Longrightarrow> device_ok d'"
proof (induction calls arbitrary: d rs)
  case Nil
  then show ?case by simp
next
  case (Cons a calls)
  from Cons.prems(2) obtain d1 r rs' where s: "step a d = Inr (d1, r)"
    and t: "run calls d1 = Inr (d', rs')"
    by (auto split: sum.splits)
  from Cons.prems(1) s have "device_ok d1"
    by (rule step_ok)
  then show ?case
    using t by (rule Cons.IH)
qed

lemma step_returns:
  assumes "device_ok d" and "in_bounds a"
  shows "\<exists>d' r. step a d = Inr (d', r)"
proof (cases a)
  case (Open t)
  then show ?thesis by (simp split: prod.split)
next
  case (Read buffer len)
  then show ?thesis
    using assms(1)
    by (simp add: device_ok_def dev_read_def Let_def split: prod.split)
next
  case (Write buffer)
  then show ?thesis
    using assms by (simp add: device_ok_def dev_write_in_bounds)
next
  case Release
  then show ?thesis by (simp split: prod.split)
qed

lemma run_returns:
  "device_ok d \<Longrightarrow> \<forall>a\<in>set calls. in_bounds a \<Longrightarrow> \<exists>d' rs. run calls d = Inr (d', rs)"
proof (induction calls arbitrary: d)
  case Nil
  then show ?case by simp
next
  case (Cons a calls)
  from Cons.prems obtain d1 r where s: "step a d = Inr (d1, r)"
    using step_returns [of d a] by auto
  with Cons.prems(1) have "device_ok d1"
    by (rule step_ok)
  with Cons.prems(2) obtain d' rs where "run calls d1 = Inr (d', rs)"
    using Cons.IH [of d1] by auto
  with s show ?case by simp
qed

text \<open>
  C10. From the initial device, after any sequence of open, read, write and release calls
  that comes back, no byte of the stored message \<open>message[0..size_of_message)\<close> is a
  lowercase letter; and every sequence whose writes are shorter than 256 bytes does come
  back.
\<close>

theorem stored_message_never_lowercase:
  "(run calls initial_device = Inr (d, rs) \<longrightarrow> (\<forall>c\<in>set (stored_message d). \<not> is_lower c)) \<and>
   ((\<forall>a\<in>set calls. in_bounds a) \<longrightarrow> (\<exists>d' rs'. run calls initial_device = Inr (d', rs')))"
  using run_ok [OF initial_device_ok, of calls d rs] run_returns [OF initial_device_ok, of calls]
  by (simp add: device_ok_def)

theorem stored_message_never_lowercase_witness:
  "run [Open 1, Write (map byte_of_char ''Hello Todd'')] initial_device =
     Inr (\<lparr>message = map byte_of_char ''HELLO TODD'' @ replicate 246 0, size_of_message = 10,
           numberOpens = 1, tdlchar_mutex = Some 1\<rparr>, [Status 0, Status 10]) \<and>
   stored_message \<lparr>message = map byte_of_char ''HELLO TODD'' @ replicate 246 0,
                   size_of_message = 10, numberOpens = 1, tdlchar_mutex = Some 1\<rparr> =
     map byte_of_char ''HELLO TODD'' \<and>
   list_all (\<lambda>c. \<not> is_lower c) (map byte_of_char ''HELLO TODD'') \<and>
   list_all in_bounds [Open 1, Write (map byte_of_char ''Hello Todd'')]"
proof -
  let ?d = "\<lparr>message = map byte_of_char ''HELLO TODD'' @ replicate 246 0, size_of_message = 10,
           numberOpens = 1, tdlchar_mutex = Some 1\<rparr>"
  let ?calls = "[Open 1, Write (map byte_of_char ''Hello Todd'')]"
  have r: "run ?calls initial_device = Inr (?d, [Status 0, Status 10])"
    by code_simp
  have s: "stored_message ?d = map byte_of_char ''HELLO TODD''"
    by code_simp
  have b: "list_all in_bounds ?calls"
    by (simp add: MESSAGE_SIZE_def)
  from stored_message_never_lowercase [of ?calls ?d "[Status 0, Status 10]"] r
  have "\<forall>c\<in>set (stored_message ?d). \<not> is_lower c"
    by blast
  then have "list_all (\<lambda>c. \<not> is_lower c) (map byte_of_char ''HELLO TODD'')"
    unfolding s list_all_iff .
  with r s b show ?thesis
    by blast
qed

end
